theory Spec2Isabelle
  imports Main "HOL-Library.Word" "HOL-Library.Sublist"
begin

section \<open>Status values\<close>

text \<open>
  \<^verbatim>\<open>tsl::Status\<close> is either OK (with an empty message) or an error code with a message.
  \<^verbatim>\<open>tsl::StatusOr<T>\<close> is the sum \<open>Status + T\<close>, with \<open>Inl\<close> the error.
  \<^verbatim>\<open>tsl::errors::Internal(a, b)\<close> builds an INTERNAL status whose message is the
  concatenation of its arguments.
\<close>

datatype StatusCode =
    CANCELLED | UNKNOWN | INVALID_ARGUMENT | DEADLINE_EXCEEDED | NOT_FOUND
  | ALREADY_EXISTS | PERMISSION_DENIED | UNAUTHENTICATED | RESOURCE_EXHAUSTED
  | FAILED_PRECONDITION | ABORTED | OUT_OF_RANGE | UNIMPLEMENTED | INTERNAL
  | UNAVAILABLE | DATA_LOSS

datatype Status = OkStatus | Error StatusCode string

fun ok :: "Status \<Rightarrow> bool" where
  "ok OkStatus = True"
| "ok (Error c m) = False"

fun message :: "Status \<Rightarrow> string" where
  "message OkStatus = []"
| "message (Error c m) = m"

definition Internal :: "string \<Rightarrow> string \<Rightarrow> Status" where
  "Internal a b = Error INTERNAL (a @ b)"

fun is_internal :: "Status \<Rightarrow> bool" where
  "is_internal (Error INTERNAL m) = True"
| "is_internal st = False"

section \<open>Handles, counters and logging\<close>

text \<open>
  The driver's handles are opaque pointers; the code only stores them, tests them for
  null and hands them back to the driver. They are addresses here, \<open>0\<close> the null pointer.
\<close>

type_synonym GpuGraphHandle = nat
type_synonym GpuGraphExecHandle = nat
type_synonym GpuStreamHandle = nat

text \<open>\<^verbatim>\<open>size_t\<close> on the 64-bit platforms the GPU runtime is built for: arithmetic wraps.\<close>

type_synonym size_t = "64 word"

text \<open>
  \<^verbatim>\<open>VLOG(level) << a << b\<close> is a macro of the logging header, which is not among the
  sources. It expands to a conditional expression,
  \<^verbatim>\<open>!VLOG_IS_ON(level) ? (void)0 : Voidifier() & LogMessage(...) << a << b\<close>,
  so the streamed operands \<open>a\<close>, \<open>b\<close> are evaluated only when verbose logging is on at
  \<open>level\<close>. The verbosity in effect for the file is a parameter \<open>v\<close> of every function
  that streams an operand with a side effect; it is \<open>0\<close> unless the process was started
  with a higher verbosity.
\<close>

definition VLOG_IS_ON :: "nat \<Rightarrow> nat \<Rightarrow> bool" where
  "VLOG_IS_ON v lvl = (lvl \<le> v)"

text \<open>
  The two static atomics of \<^verbatim>\<open>GpuGraphSupport\<close>, \<^verbatim>\<open>allocated_gpu_graph_execs_\<close> and
  \<^verbatim>\<open>alive_gpu_graph_execs_\<close>, zero-initialised.
\<close>

record GpuGraphSupport =
  allocated_gpu_graph_execs_atomic :: size_t
  alive_gpu_graph_execs_atomic :: size_t

definition init_support :: GpuGraphSupport where
  "init_support = \<lparr>allocated_gpu_graph_execs_atomic = 0, alive_gpu_graph_execs_atomic = 0\<rparr>"

text \<open>\<^verbatim>\<open>fetch_add\<close> and \<^verbatim>\<open>fetch_sub\<close> return the value before the update.\<close>

definition NotifyGraphExecCreated :: "GpuGraphSupport \<Rightarrow> size_t \<times> GpuGraphSupport" where
  "NotifyGraphExecCreated s =
     (let s1 = s\<lparr>alive_gpu_graph_execs_atomic := alive_gpu_graph_execs_atomic s + 1\<rparr>
      in (allocated_gpu_graph_execs_atomic s1,
          s1\<lparr>allocated_gpu_graph_execs_atomic := allocated_gpu_graph_execs_atomic s1 + 1\<rparr>))"

definition NotifyGraphExecDestroyed :: "GpuGraphSupport \<Rightarrow> size_t \<times> GpuGraphSupport" where
  "NotifyGraphExecDestroyed s =
     (alive_gpu_graph_execs_atomic s - 1,
      s\<lparr>alive_gpu_graph_execs_atomic := alive_gpu_graph_execs_atomic s - 1\<rparr>)"

definition allocated_gpu_graph_execs :: "GpuGraphSupport \<Rightarrow> size_t" where
  "allocated_gpu_graph_execs s = allocated_gpu_graph_execs_atomic s"

definition alive_gpu_graph_execs :: "GpuGraphSupport \<Rightarrow> size_t" where
  "alive_gpu_graph_execs s = alive_gpu_graph_execs_atomic s"

section \<open>OwnedGpuGraphExec\<close>

text \<open>
  Modelled from the spec: the class declaration of \<^verbatim>\<open>OwnedGpuGraphExec\<close> (its fields,
  constructor and move operations) is in a header that is not among the sources. The
  spec gives it an identity, a launch count and an update count, both counts starting
  at zero, and move operations that null out the source. The handle \<open>exec\<close> is the
  pointer of the \<^verbatim>\<open>unique_ptr\<close> base; the instance is empty (moved-from) when it is
  null. The fields \<open>exec_id\<close>, \<open>num_updates\<close> and \<open>num_launches\<close> are the source's
  \<^verbatim>\<open>id_\<close>, \<^verbatim>\<open>num_updates_\<close> and \<^verbatim>\<open>num_launches_\<close>.
\<close>

record OwnedGpuGraphExec =
  exec :: GpuGraphExecHandle
  exec_id :: size_t
  num_updates :: nat
  num_launches :: nat

definition OwnedGpuGraphExec_new :: "size_t \<Rightarrow> GpuGraphExecHandle \<Rightarrow> OwnedGpuGraphExec" where
  "OwnedGpuGraphExec_new i h = \<lparr>exec = h, exec_id = i, num_updates = 0, num_launches = 0\<rparr>"

definition non_empty :: "OwnedGpuGraphExec \<Rightarrow> bool" where
  "non_empty e = (exec e \<noteq> 0)"

definition move_exec :: "OwnedGpuGraphExec \<Rightarrow> OwnedGpuGraphExec \<times> OwnedGpuGraphExec" where
  "move_exec e = (e, e\<lparr>exec := 0\<rparr>)"

text \<open>
  Modelled from the spec: the enumeration \<^verbatim>\<open>GpuDriver::GraphExecUpdateResult\<close> is declared
  in the driver's header, not among the sources. The spec has it distinguish success
  from "requires full re-instantiation" from other failures; the code only compares
  it with \<^verbatim>\<open>kSuccess\<close>.
\<close>

datatype GraphExecUpdateResult = kSuccess | kRequiresReinstantiation | kOtherFailure

text \<open>
  \<^verbatim>\<open>OwnedGpuGraphExec::Update\<close>. The new graph is only handed to the driver, and the
  driver's answer to \<^verbatim>\<open>GraphExecUpdate\<close> (its status and the result it writes) is the
  argument \<open>drv\<close>. The post-increment of
  \<^verbatim>\<open>num_updates_\<close> is an operand streamed into \<^verbatim>\<open>VLOG(3)\<close>; the reset of
  \<^verbatim>\<open>num_launches_\<close> is a statement of its own. Both come before the driver call.
\<close>

definition Update ::
  "nat \<Rightarrow> Status \<times> GraphExecUpdateResult \<Rightarrow> OwnedGpuGraphExec \<Rightarrow> Status \<times> OwnedGpuGraphExec" where
  "Update v drv e =
     (let e1 = (if VLOG_IS_ON v 3 then e\<lparr>num_updates := num_updates e + 1\<rparr> else e);
          e2 = e1\<lparr>num_launches := 0\<rparr>;
          st = fst drv;
          result = snd drv
      in if \<not> ok st \<or> result \<noteq> kSuccess
         then (Internal ''Failed to update gpu graph: '' (message st), e2)
         else (OkStatus, e2))"

text \<open>
  \<^verbatim>\<open>OwnedGpuGraphExec::Launch\<close>: the pre-increment of \<^verbatim>\<open>num_launches_\<close> is an operand
  streamed into \<^verbatim>\<open>VLOG(3)\<close>; the status of the driver's \<^verbatim>\<open>GraphLaunch\<close> is returned as
  it is.
\<close>

definition Launch :: "nat \<Rightarrow> Status \<Rightarrow> OwnedGpuGraphExec \<Rightarrow> Status \<times> OwnedGpuGraphExec" where
  "Launch v drv e =
     (let e1 = (if VLOG_IS_ON v 3 then e\<lparr>num_launches := num_launches e + 1\<rparr> else e)
      in (drv, e1))"

text \<open>
  The body of \<^verbatim>\<open>OwnedGpuGraphExec::~OwnedGpuGraphExec\<close>: for a non-empty instance a
  \<^verbatim>\<open>VLOG(5)\<close> statement, one of whose operands is the call of
  \<^verbatim>\<open>NotifyGraphExecDestroyed\<close>.
\<close>

definition OwnedGpuGraphExec_dtor :: "nat \<Rightarrow> OwnedGpuGraphExec \<Rightarrow> GpuGraphSupport \<Rightarrow> GpuGraphSupport" where
  "OwnedGpuGraphExec_dtor v e s =
     (if non_empty e
      then (if VLOG_IS_ON v 5 then snd (NotifyGraphExecDestroyed s) else s)
      else s)"

text \<open>
  \<^verbatim>\<open>GpuGraphSupport::DestroyGraphExec\<close>, the deleter of the \<^verbatim>\<open>unique_ptr\<close> base: the
  driver's status \<open>st\<close> is checked with \<^verbatim>\<open>CHECK\<close>, which aborts the process when it is
  not OK (\<open>False\<close> here).
\<close>

definition DestroyGraphExec :: "Status \<Rightarrow> bool" where
  "DestroyGraphExec st = ok st"

text \<open>
  The process state the destruction of an instance touches: the counters, and the
  handles given to the driver's \<^verbatim>\<open>DestroyGraphExec\<close> so far.
\<close>

record process =
  support :: GpuGraphSupport
  destroyed_execs :: "GpuGraphExecHandle list"

text \<open>
  Destroying an instance runs the destructor's body, then the base's destructor,
  which calls the deleter on a non-null handle. \<open>None\<close> is the aborted process.
\<close>

definition destroy ::
  "nat \<Rightarrow> Status \<Rightarrow> OwnedGpuGraphExec \<Rightarrow> 'a process_scheme \<Rightarrow> 'a process_scheme option" where
  "destroy v st e p =
     (let p1 = p\<lparr>support := OwnedGpuGraphExec_dtor v e (support p)\<rparr>
      in if exec e = 0 then Some p1
         else if DestroyGraphExec st
              then Some (p1\<lparr>destroyed_execs := destroyed_execs p1 @ [exec e]\<rparr>)
              else None)"

section \<open>Instantiation\<close>

text \<open>
  \<^verbatim>\<open>InstantiateGpuGraph\<close>: the graph is only handed to the driver, and \<open>drv\<close> is the
  driver's answer to \<^verbatim>\<open>GraphInstantiate\<close>, its status and the handle it writes. \<^verbatim>\<open>TF_RETURN_IF_ERROR\<close> returns a status that is not
  OK at once. The call of \<^verbatim>\<open>NotifyGraphExecCreated\<close> is a statement of its own.
\<close>

definition InstantiateGpuGraph ::
  "Status \<times> GpuGraphExecHandle \<Rightarrow> GpuGraphSupport \<Rightarrow> (Status + OwnedGpuGraphExec) \<times> GpuGraphSupport" where
  "InstantiateGpuGraph drv s =
     (if \<not> ok (fst drv) then (Inl (fst drv), s)
      else (let r = NotifyGraphExecCreated s
            in (Inr (OwnedGpuGraphExec_new (fst r) (snd drv)), snd r)))"

section \<open>Sequences of instantiations and destructions\<close>

text \<open>
  A program that instantiates and destroys executables: the process state and every
  instance created so far, in the order of creation, each with a flag that is
  \<open>True\<close> until the instance is destroyed. \<open>Instantiate st h\<close> is a call of
  \<^verbatim>\<open>InstantiateGpuGraph\<close> that the driver answers with status \<open>st\<close> and handle \<open>h\<close>;
  \<open>Destroy i st\<close> ends the lifetime of the \<open>i\<close>-th instance, the driver answering its
  \<^verbatim>\<open>DestroyGraphExec\<close> with \<open>st\<close>. The result \<open>None\<close> is an aborted process, or a
  destruction of an instance that does not exist or is already destroyed.
\<close>

datatype call = Instantiate Status GpuGraphExecHandle | Destroy nat Status

record program = process +
  objects :: "(OwnedGpuGraphExec \<times> bool) list"

definition init_program :: program where
  "init_program = \<lparr>support = init_support, destroyed_execs = [], objects = []\<rparr>"

fun step :: "nat \<Rightarrow> call \<Rightarrow> program \<Rightarrow> program option" where
  "step v (Instantiate st h) p =
     (case InstantiateGpuGraph (st, h) (support p) of
        (Inl err, s) \<Rightarrow> Some (p\<lparr>support := s\<rparr>)
      | (Inr e, s) \<Rightarrow> Some (p\<lparr>support := s, objects := objects p @ [(e, True)]\<rparr>))"
| "step v (Destroy i st) p =
     (if i < length (objects p) \<and> snd (objects p ! i)
      then (case destroy v st (fst (objects p ! i)) p of
              None \<Rightarrow> None
            | Some q \<Rightarrow> Some (q\<lparr>objects := (objects q)[i := (fst (objects q ! i), False)]\<rparr>))
      else None)"

fun run :: "nat \<Rightarrow> call list \<Rightarrow> program \<Rightarrow> program option" where
  "run v [] p = Some p"
| "run v (c # cs) p = (case step v c p of None \<Rightarrow> None | Some q \<Rightarrow> run v cs q)"

fun successful :: "call \<Rightarrow> bool" where
  "successful (Instantiate st h) = ok st"
| "successful (Destroy i st) = False"

text \<open>A call to which the driver, when it succeeds, answers with a handle that is not null.\<close>

fun non_null_handle :: "call \<Rightarrow> bool" where
  "non_null_handle (Instantiate st h) = (if ok st then h \<noteq> 0 else True)"
| "non_null_handle (Destroy i st) = True"

definition instantiations :: "call list \<Rightarrow> nat" where
  "instantiations cs = length (filter successful cs)"

definition live_count :: "program \<Rightarrow> nat" where
  "live_count p = length (filter snd (objects p))"

definition identities :: "program \<Rightarrow> size_t list" where
  "identities p = map (\<lambda>x. exec_id (fst x)) (objects p)"

definition identities_of :: "program option \<Rightarrow> size_t list" where
  "identities_of r = (case r of None \<Rightarrow> [] | Some p \<Rightarrow> identities p)"

section \<open>Capture\<close>

text \<open>
  The driver calls that \<^verbatim>\<open>CaptureGpuGraph\<close> and \<^verbatim>\<open>IsStreamCapturing\<close> make. The driver
  is not among the sources: it is a parameter, a record of functions on the state
  \<open>'s\<close> of the device and its streams. \<open>StreamBeginCapture\<close> is the call with the
  capture mode \<^verbatim>\<open>kThreadLocal\<close>; \<open>StreamEndCapture\<close> returns its status and the graph it
  writes.
\<close>

record 's GpuDriver =
  StreamBeginCapture :: "GpuStreamHandle \<Rightarrow> 's \<Rightarrow> Status \<times> 's"
  StreamEndCapture :: "GpuStreamHandle \<Rightarrow> 's \<Rightarrow> (Status \<times> GpuGraphHandle) \<times> 's"
  StreamIsCapturing :: "GpuStreamHandle \<Rightarrow> 's \<Rightarrow> Status + bool"
  GraphDebugDotPrint :: "GpuGraphHandle \<Rightarrow> string \<Rightarrow> 's \<Rightarrow> Status \<times> 's"

text \<open>
  What the code reads of the environment: the value of
  \<^verbatim>\<open>XLA_GPU_GRAPH_DEBUG_DIRECTORY\<close>, \<^verbatim>\<open>tsl::io::JoinPath\<close>, and
  \<^verbatim>\<open>Env::CreateUniqueFileName\<close>, which gives the new file name when it returns true.
\<close>

record Env =
  getenv_debug_directory :: "string option"
  JoinPath :: "string \<Rightarrow> string \<Rightarrow> string"
  CreateUniqueFileName :: "string \<Rightarrow> string \<Rightarrow> string option"

datatype OwnedGpuGraph = OwnedGpuGraph GpuGraphHandle

text \<open>The optional dump of the captured graph; its status is ignored.\<close>

definition debug_dot_print :: "'s GpuDriver \<Rightarrow> Env \<Rightarrow> GpuGraphHandle \<Rightarrow> 's \<Rightarrow> 's" where
  "debug_dot_print drv env graph s =
     (case getenv_debug_directory env of
        None \<Rightarrow> s
      | Some path \<Rightarrow>
          (case CreateUniqueFileName env (JoinPath env path ''/gpu-graph-'') ''.dot'' of
             None \<Rightarrow> s
           | Some file \<Rightarrow> snd (GraphDebugDotPrint drv graph file s)))"

text \<open>
  \<^verbatim>\<open>CaptureGpuGraph\<close>: the capture body is a function on the state that returns its
  status. The state is threaded through begin-capture, the body, end-capture and the
  dump, in that order.
\<close>

definition CaptureGpuGraph ::
  "'s GpuDriver \<Rightarrow> Env \<Rightarrow> GpuStreamHandle \<Rightarrow> ('s \<Rightarrow> Status \<times> 's) \<Rightarrow> 's
     \<Rightarrow> (Status + OwnedGpuGraph) \<times> 's" where
  "CaptureGpuGraph drv env gpu_stream capture s0 =
     (case StreamBeginCapture drv gpu_stream s0 of
        (begun, s1) \<Rightarrow>
          if \<not> ok begun then (Inl begun, s1)
          else (case capture s1 of
                  (captured, s2) \<Rightarrow>
                    (case StreamEndCapture drv gpu_stream s2 of
                       ((ended, graph), s3) \<Rightarrow>
                         if \<not> ok ended then (Inl ended, s3)
                         else if \<not> ok captured
                         then (Inl (Internal ''failed to capture gpu graph: '' (message captured)), s3)
                         else (Inr (OwnedGpuGraph graph), debug_dot_print drv env graph s3))))"

definition IsStreamCapturing :: "'s GpuDriver \<Rightarrow> GpuStreamHandle \<Rightarrow> 's \<Rightarrow> Status + bool" where
  "IsStreamCapturing drv gpu_stream s = StreamIsCapturing drv gpu_stream s"

text \<open>
  A driver and an environment for the worked examples. The state is the capture flag of
  the one stream; \<open>stub_driver b e\<close> answers begin-capture with \<open>b\<close> and end-capture with
  \<open>e\<close> and graph 7, setting and clearing the flag when the call succeeds. The body
  \<open>failing_body\<close> fails with the message "boom".
\<close>

definition stub_driver :: "Status \<Rightarrow> Status \<Rightarrow> bool GpuDriver" where
  "stub_driver b e =
     \<lparr>StreamBeginCapture = (\<lambda>stream s. (b, if ok b then True else s)),
      StreamEndCapture = (\<lambda>stream s. ((e, 7), if ok e then False else s)),
      StreamIsCapturing = (\<lambda>stream s. Inr s),
      GraphDebugDotPrint = (\<lambda>graph file s. (OkStatus, s))\<rparr>"

definition no_debug_env :: Env where
  "no_debug_env =
     \<lparr>getenv_debug_directory = None,
      JoinPath = (\<lambda>a b. a @ b),
      CreateUniqueFileName = (\<lambda>prefix suffix. None)\<rparr>"

definition failing_body :: "bool \<Rightarrow> Status \<times> bool" where
  "failing_body s = (Error ABORTED ''boom'', s)"

section \<open>Facts about statuses\<close>

lemma message_Internal: "message (Internal a b) = a @ b"
  by (simp add: Internal_def)

lemma not_ok_Internal: "\<not> ok (Internal a b)"
  by (simp add: Internal_def)

lemma is_internal_Internal: "is_internal (Internal a b)"
  by (simp add: Internal_def)

section \<open>Update and Launch\<close>

lemma Update_status:
  "fst (Update v (st, r) e) =
      (if \<not> ok st \<or> r \<noteq> kSuccess
       then Internal ''Failed to update gpu graph: '' (message st) else OkStatus)"
  by (simp add: Update_def Let_def)

lemma Update_exec:
  "snd (Update v drv e) =
     (if VLOG_IS_ON v 3 then e\<lparr>num_updates := num_updates e + 1, num_launches := 0\<rparr>
      else e\<lparr>num_launches := 0\<rparr>)"
  by (simp add: Update_def Let_def)

text \<open>
  C5. Update returns an error exactly when the driver's update call returns a status
  that is not OK or reports a result other than success. The error is then an INTERNAL
  status whose message is "Failed to update gpu graph: " followed by the driver's
  message, so it contains the driver's text; otherwise Update returns OK.
\<close>

theorem Update_error_iff_driver_failed:
  "(\<not> ok (fst (Update v (st, r) e)) \<longleftrightarrow> (\<not> ok st \<or> r \<noteq> kSuccess)) \<and>
   (\<not> ok st \<or> r \<noteq> kSuccess \<longrightarrow>
      fst (Update v (st, r) e) = Error INTERNAL (''Failed to update gpu graph: '' @ message st) \<and>
      is_internal (fst (Update v (st, r) e)) \<and>
      sublist (message st) (message (fst (Update v (st, r) e)))) \<and>
   (ok st \<and> r = kSuccess \<longrightarrow> fst (Update v (st, r) e) = OkStatus)"
proof (cases "\<not> ok st \<or> r \<noteq> kSuccess")
  case True
  then have u: "fst (Update v (st, r) e) = Internal ''Failed to update gpu graph: '' (message st)"
    by (simp only: Update_status if_True)
  have "sublist (message st) (message (fst (Update v (st, r) e)))"
    unfolding u message_Internal by (rule sublist_append_leftI)
  moreover have "fst (Update v (st, r) e) = Error INTERNAL (''Failed to update gpu graph: '' @ message st)"
    unfolding u Internal_def ..
  moreover have "is_internal (fst (Update v (st, r) e))" "\<not> ok (fst (Update v (st, r) e))"
    unfolding u by (rule is_internal_Internal, rule not_ok_Internal)
  ultimately show ?thesis using True by blast
next
  case False
  then have "fst (Update v (st, r) e) = OkStatus"
    by (simp only: Update_status if_False)
  with False show ?thesis by simp
qed

theorem Update_error_iff_driver_failed_witness:
  "fst (Update 0 (Error UNAVAILABLE ''device lost'', kSuccess) (OwnedGpuGraphExec_new 0 1))
     = Error INTERNAL ''Failed to update gpu graph: device lost'' \<and>
   fst (Update 0 (OkStatus, kRequiresReinstantiation) (OwnedGpuGraphExec_new 0 1))
     = Error INTERNAL ''Failed to update gpu graph: '' \<and>
   fst (Update 0 (OkStatus, kSuccess) (OwnedGpuGraphExec_new 0 1)) = OkStatus"
  using Update_error_iff_driver_failed [of 0 "Error UNAVAILABLE ''device lost''" kSuccess "OwnedGpuGraphExec_new 0 1"]
        Update_error_iff_driver_failed [of 0 OkStatus kRequiresReinstantiation "OwnedGpuGraphExec_new 0 1"]
        Update_error_iff_driver_failed [of 0 OkStatus kSuccess "OwnedGpuGraphExec_new 0 1"]
  by simp

text \<open>
  C2. After Update the launch count is 0, whatever it was and whatever the driver
  answers. The update count is one greater than before only when verbose logging is on
  at level 3: the increment is an operand of the \<^verbatim>\<open>VLOG(3)\<close> statement. At a lower
  verbosity, the default, Update leaves the update count as it was.
\<close>

theorem Update_counts:
  "num_launches (snd (Update v drv e)) = 0 \<and>
   num_updates (snd (Update v drv e)) =
     (if VLOG_IS_ON v 3 then num_updates e + 1 else num_updates e)"
  by (simp add: Update_exec)

theorem Update_counts_witness:
  "num_launches (snd (Update 0 (OkStatus, kSuccess)
       \<lparr>exec = 1, exec_id = 0, num_updates = 4, num_launches = 9\<rparr>)) = 0 \<and>
   num_updates (snd (Update 0 (OkStatus, kSuccess)
       \<lparr>exec = 1, exec_id = 0, num_updates = 4, num_launches = 9\<rparr>)) = 4"
  using Update_counts [of 0 "(OkStatus, kSuccess)"
      "\<lparr>exec = 1, exec_id = 0, num_updates = 4, num_launches = 9\<rparr>"]
  by (simp add: VLOG_IS_ON_def)

text \<open>
  C9. When the driver's update fails, Update returns an INTERNAL error and the
  instance has already been changed: the launch count is reset to 0, and the update
  count is incremented when verbose logging is on at level 3. At the default verbosity
  a failed Update resets the launch count and leaves the update count as it was.
\<close>

theorem Update_failure_counts:
  "\<not> ok st \<or> r \<noteq> kSuccess \<Longrightarrow>
   is_internal (fst (Update v (st, r) e)) \<and>
   snd (Update v (st, r) e) =
     (if VLOG_IS_ON v 3 then e\<lparr>num_updates := num_updates e + 1, num_launches := 0\<rparr>
      else e\<lparr>num_launches := 0\<rparr>)"
  using is_internal_Internal by (simp add: Update_status Update_exec)

theorem Update_failure_counts_witness:
  "Update 0 (OkStatus, kRequiresReinstantiation)
       \<lparr>exec = 1, exec_id = 0, num_updates = 4, num_launches = 9\<rparr>
     = (Error INTERNAL ''Failed to update gpu graph: '',
        \<lparr>exec = 1, exec_id = 0, num_updates = 4, num_launches = 0\<rparr>)"
  using Update_failure_counts [of OkStatus kRequiresReinstantiation 0
      "\<lparr>exec = 1, exec_id = 0, num_updates = 4, num_launches = 9\<rparr>"]
  by (simp add: VLOG_IS_ON_def Update_def Internal_def)

text \<open>
  C3. Launch increments the launch count by one only when verbose logging is on at
  level 3: the increment is an operand of the \<^verbatim>\<open>VLOG(3)\<close> statement. At the default
  verbosity a fresh executable still has launch count 0 after one launch and after
  three.
\<close>

theorem Launch_count:
  "num_launches (snd (Launch v drv e)) =
     (if VLOG_IS_ON v 3 then num_launches e + 1 else num_launches e)"
  by (simp add: Launch_def)

theorem Launch_count_witness:
  "num_launches (snd (Launch 0 OkStatus (OwnedGpuGraphExec_new 0 1))) = 0 \<and>
   num_launches (snd (Launch 0 OkStatus (snd (Launch 0 OkStatus
      (snd (Launch 0 OkStatus (OwnedGpuGraphExec_new 0 1))))))) = 0"
  using Launch_count [of 0 OkStatus "OwnedGpuGraphExec_new 0 1"]
        Launch_count [of 0 OkStatus "snd (Launch 0 OkStatus (OwnedGpuGraphExec_new 0 1))"]
        Launch_count [of 0 OkStatus "snd (Launch 0 OkStatus (snd (Launch 0 OkStatus (OwnedGpuGraphExec_new 0 1))))"]
  by (simp add: VLOG_IS_ON_def OwnedGpuGraphExec_new_def)

section \<open>Instantiation and destruction\<close>

lemma destroy_empty: "exec e = 0 \<Longrightarrow> destroy v st e p = Some p"
  by (simp add: destroy_def OwnedGpuGraphExec_dtor_def non_empty_def)

lemma destroy_non_empty:
  "exec e \<noteq> 0 \<Longrightarrow> destroy v st e p =
     (if ok st
      then Some (p\<lparr>support := (if VLOG_IS_ON v 5 then snd (NotifyGraphExecDestroyed (support p))
                                 else support p),
                   destroyed_execs := destroyed_execs p @ [exec e]\<rparr>)
      else None)"
  by (simp add: destroy_def OwnedGpuGraphExec_dtor_def non_empty_def DestroyGraphExec_def Let_def)

lemma InstantiateGpuGraph_success:
  "ok (fst drv) \<Longrightarrow> InstantiateGpuGraph drv s =
     (Inr (OwnedGpuGraphExec_new (allocated_gpu_graph_execs_atomic s) (snd drv)),
      \<lparr>allocated_gpu_graph_execs_atomic = allocated_gpu_graph_execs_atomic s + 1,
       alive_gpu_graph_execs_atomic = alive_gpu_graph_execs_atomic s + 1\<rparr>)"
  by (simp add: InstantiateGpuGraph_def NotifyGraphExecCreated_def Let_def)

lemma InstantiateGpuGraph_failure:
  "\<not> ok (fst drv) \<Longrightarrow> InstantiateGpuGraph drv s = (Inl (fst drv), s)"
  by (simp add: InstantiateGpuGraph_def)

text \<open>
  C7. When the driver's instantiate call fails, InstantiateGpuGraph returns the
  driver's error and no executable, and both counters keep their values: no identity
  is consumed. When it succeeds, the identity of the new executable is the value of
  the allocation counter before the call, and both counters go up by one.
\<close>

theorem InstantiateGpuGraph_identity_only_on_success:
  "(\<not> ok (fst drv) \<longrightarrow> InstantiateGpuGraph drv s = (Inl (fst drv), s)) \<and>
   (ok (fst drv) \<longrightarrow> InstantiateGpuGraph drv s =
      (Inr (OwnedGpuGraphExec_new (allocated_gpu_graph_execs s) (snd drv)),
       \<lparr>allocated_gpu_graph_execs_atomic = allocated_gpu_graph_execs s + 1,
        alive_gpu_graph_execs_atomic = alive_gpu_graph_execs s + 1\<rparr>))"
  by (simp add: InstantiateGpuGraph_success InstantiateGpuGraph_failure
        allocated_gpu_graph_execs_def alive_gpu_graph_execs_def)

theorem InstantiateGpuGraph_identity_only_on_success_witness:
  "InstantiateGpuGraph (Error RESOURCE_EXHAUSTED ''out of memory'', 0)
       \<lparr>allocated_gpu_graph_execs_atomic = 5, alive_gpu_graph_execs_atomic = 2\<rparr>
     = (Inl (Error RESOURCE_EXHAUSTED ''out of memory''),
        \<lparr>allocated_gpu_graph_execs_atomic = 5, alive_gpu_graph_execs_atomic = 2\<rparr>) \<and>
   InstantiateGpuGraph (OkStatus, 9)
       \<lparr>allocated_gpu_graph_execs_atomic = 5, alive_gpu_graph_execs_atomic = 2\<rparr>
     = (Inr (OwnedGpuGraphExec_new 5 9),
        \<lparr>allocated_gpu_graph_execs_atomic = 6, alive_gpu_graph_execs_atomic = 3\<rparr>)"
  using InstantiateGpuGraph_identity_only_on_success
    [of "(Error RESOURCE_EXHAUSTED ''out of memory'', 0)"
        "\<lparr>allocated_gpu_graph_execs_atomic = 5, alive_gpu_graph_execs_atomic = 2\<rparr>"]
    InstantiateGpuGraph_identity_only_on_success
    [of "(OkStatus, 9)"
        "\<lparr>allocated_gpu_graph_execs_atomic = 5, alive_gpu_graph_execs_atomic = 2\<rparr>"]
  by (simp add: allocated_gpu_graph_execs_def alive_gpu_graph_execs_def)

lemma alive_Destroyed:
  "alive_gpu_graph_execs (snd (NotifyGraphExecDestroyed s)) = alive_gpu_graph_execs s - 1"
  "allocated_gpu_graph_execs (snd (NotifyGraphExecDestroyed s)) = allocated_gpu_graph_execs s"
  by (simp_all add: NotifyGraphExecDestroyed_def alive_gpu_graph_execs_def allocated_gpu_graph_execs_def)

text \<open>
  C8. After a move the source is empty, and destroying it changes nothing: the
  counters keep their values and no handle is given to the driver. Destroying the
  instance that took the handle gives the handle to the driver, and decrements the
  alive counter only when verbose logging is on at level 5: the call of
  \<^verbatim>\<open>NotifyGraphExecDestroyed\<close> is an operand of the \<^verbatim>\<open>VLOG(5)\<close> statement. At the
  default verbosity no decrement occurs for the pair.
\<close>

theorem destroy_moved_pair:
  "move_exec e = (dst, src) \<Longrightarrow>
   destroy v st src p = Some p \<and>
   (non_empty e \<longrightarrow> destroy v st' dst p = Some q \<longrightarrow>
      alive_gpu_graph_execs (support q) =
        (if VLOG_IS_ON v 5 then alive_gpu_graph_execs (support p) - 1
         else alive_gpu_graph_execs (support p)) \<and>
      allocated_gpu_graph_execs (support q) = allocated_gpu_graph_execs (support p) \<and>
      destroyed_execs q = destroyed_execs p @ [exec e])"
  by (auto simp: move_exec_def destroy_empty destroy_non_empty non_empty_def alive_Destroyed
           split: if_splits)

theorem destroy_moved_pair_witness:
  "move_exec (OwnedGpuGraphExec_new 0 1)
     = (OwnedGpuGraphExec_new 0 1, (OwnedGpuGraphExec_new 0 1)\<lparr>exec := 0\<rparr>) \<and>
   destroy 0 OkStatus ((OwnedGpuGraphExec_new 0 1)\<lparr>exec := 0\<rparr>)
       \<lparr>support = \<lparr>allocated_gpu_graph_execs_atomic = 1, alive_gpu_graph_execs_atomic = 1\<rparr>,
        destroyed_execs = []\<rparr>
     = Some \<lparr>support = \<lparr>allocated_gpu_graph_execs_atomic = 1, alive_gpu_graph_execs_atomic = 1\<rparr>,
             destroyed_execs = []\<rparr> \<and>
   destroy 0 OkStatus (OwnedGpuGraphExec_new 0 1)
       \<lparr>support = \<lparr>allocated_gpu_graph_execs_atomic = 1, alive_gpu_graph_execs_atomic = 1\<rparr>,
        destroyed_execs = []\<rparr>
     = Some \<lparr>support = \<lparr>allocated_gpu_graph_execs_atomic = 1, alive_gpu_graph_execs_atomic = 1\<rparr>,
             destroyed_execs = [1]\<rparr>"
  using destroy_moved_pair [where e = "OwnedGpuGraphExec_new 0 1" and dst = "OwnedGpuGraphExec_new 0 1"
      and src = "(OwnedGpuGraphExec_new 0 1)\<lparr>exec := 0\<rparr>" and v = 0 and st = OkStatus
      and st' = OkStatus
      and p = "\<lparr>support = \<lparr>allocated_gpu_graph_execs_atomic = 1, alive_gpu_graph_execs_atomic = 1\<rparr>,
        destroyed_execs = []\<rparr>"]
  by (simp add: move_exec_def destroy_non_empty OwnedGpuGraphExec_new_def VLOG_IS_ON_def)

section \<open>Sequences of instantiations and destructions: the counters\<close>

lemma step_Instantiate_ok:
  "ok st \<Longrightarrow> step v (Instantiate st h) p =
     Some (p\<lparr>support := \<lparr>allocated_gpu_graph_execs_atomic = allocated_gpu_graph_execs_atomic (support p) + 1,
                           alive_gpu_graph_execs_atomic = alive_gpu_graph_execs_atomic (support p) + 1\<rparr>,
              objects := objects p @
                [(OwnedGpuGraphExec_new (allocated_gpu_graph_execs_atomic (support p)) h, True)]\<rparr>)"
  by (simp add: InstantiateGpuGraph_success)

lemma step_Instantiate_failed:
  "\<not> ok st \<Longrightarrow> step v (Instantiate st h) p = Some p"
  by (simp add: InstantiateGpuGraph_failure)

lemma step_Destroy_empty:
  "i < length (objects p) \<Longrightarrow> snd (objects p ! i) \<Longrightarrow> exec (fst (objects p ! i)) = 0 \<Longrightarrow>
   step v (Destroy i st) p = Some (p\<lparr>objects := (objects p)[i := (fst (objects p ! i), False)]\<rparr>)"
  by (simp add: destroy_empty)

lemma step_Destroy_non_empty:
  "i < length (objects p) \<Longrightarrow> snd (objects p ! i) \<Longrightarrow> exec (fst (objects p ! i)) \<noteq> 0 \<Longrightarrow>
   ok st \<Longrightarrow>
   step v (Destroy i st) p =
     Some (p\<lparr>support := (if VLOG_IS_ON v 5 then snd (NotifyGraphExecDestroyed (support p))
                           else support p),
              destroyed_execs := destroyed_execs p @ [exec (fst (objects p ! i))],
              objects := (objects p)[i := (fst (objects p ! i), False)]\<rparr>)"
  by (simp add: destroy_non_empty)

lemma step_Destroy_None:
  "\<not> (i < length (objects p) \<and> snd (objects p ! i)) \<or>
     (exec (fst (objects p ! i)) \<noteq> 0 \<and> \<not> ok st) \<Longrightarrow>
   step v (Destroy i st) p = None"
  by (auto simp: destroy_non_empty)


lemma step_cases:
  assumes "step v c p = Some q"
  obtains
    (created) st h where "c = Instantiate st h" "ok st"
      "q = p\<lparr>support := \<lparr>allocated_gpu_graph_execs_atomic = allocated_gpu_graph_execs_atomic (support p) + 1,
                           alive_gpu_graph_execs_atomic = alive_gpu_graph_execs_atomic (support p) + 1\<rparr>,
              objects := objects p @
                [(OwnedGpuGraphExec_new (allocated_gpu_graph_execs_atomic (support p)) h, True)]\<rparr>"
  | (failed) st h where "c = Instantiate st h" "\<not> ok st" "q = p"
  | (empty) i st where "c = Destroy i st" "i < length (objects p)" "snd (objects p ! i)"
      "exec (fst (objects p ! i)) = 0"
      "q = p\<lparr>objects := (objects p)[i := (fst (objects p ! i), False)]\<rparr>"
  | (released) i st where "c = Destroy i st" "i < length (objects p)" "snd (objects p ! i)"
      "exec (fst (objects p ! i)) \<noteq> 0" "ok st"
      "q = p\<lparr>support := (if VLOG_IS_ON v 5 then snd (NotifyGraphExecDestroyed (support p))
                           else support p),
              destroyed_execs := destroyed_execs p @ [exec (fst (objects p ! i))],
              objects := (objects p)[i := (fst (objects p ! i), False)]\<rparr>"
proof (cases c)
  case (Instantiate st h)
  show ?thesis
  proof (cases "ok st")
    case True
    with assms Instantiate have "q = p\<lparr>support := \<lparr>allocated_gpu_graph_execs_atomic = allocated_gpu_graph_execs_atomic (support p) + 1,
                           alive_gpu_graph_execs_atomic = alive_gpu_graph_execs_atomic (support p) + 1\<rparr>,
              objects := objects p @
                [(OwnedGpuGraphExec_new (allocated_gpu_graph_execs_atomic (support p)) h, True)]\<rparr>"
      by (simp add: step_Instantiate_ok del: step.simps)
    with Instantiate True show ?thesis by (rule created)
  next
    case False
    with assms Instantiate have "q = p"
      by (simp add: step_Instantiate_failed del: step.simps)
    with Instantiate False show ?thesis by (rule failed)
  qed
next
  case (Destroy i st)
  have i: "i < length (objects p)" and alive: "snd (objects p ! i)"
    using assms Destroy step_Destroy_None [of i p st v] by auto
  show ?thesis
  proof (cases "exec (fst (objects p ! i)) = 0")
    case True
    with assms Destroy i alive
    have "q = p\<lparr>objects := (objects p)[i := (fst (objects p ! i), False)]\<rparr>"
      by (simp add: step_Destroy_empty del: step.simps)
    with Destroy i alive True show ?thesis by (rule empty)
  next
    case False
    have st: "ok st"
      using assms Destroy False step_Destroy_None [of i p st v] by auto
    with assms Destroy i alive False
    have "q = p\<lparr>support := (if VLOG_IS_ON v 5 then snd (NotifyGraphExecDestroyed (support p))
                           else support p),
              destroyed_execs := destroyed_execs p @ [exec (fst (objects p ! i))],
              objects := (objects p)[i := (fst (objects p ! i), False)]\<rparr>"
      by (simp add: step_Destroy_non_empty del: step.simps)
    with Destroy i alive False st show ?thesis by (rule released)
  qed
qed


lemma instantiations_simps:
  "instantiations [] = 0"
  "instantiations (Instantiate st h # cs) = (if ok st then Suc (instantiations cs) else instantiations cs)"
  "instantiations (Destroy i st' # cs) = instantiations cs"
  by (simp_all add: instantiations_def)

lemma alive_after_Destroyed:
  "alive_gpu_graph_execs_atomic (snd (NotifyGraphExecDestroyed s)) = alive_gpu_graph_execs_atomic s - 1"
  "allocated_gpu_graph_execs_atomic (snd (NotifyGraphExecDestroyed s)) = allocated_gpu_graph_execs_atomic s"
  by (simp_all add: NotifyGraphExecDestroyed_def)

lemma step_allocated:
  assumes "step v c p = Some q"
  shows "allocated_gpu_graph_execs_atomic (support q)
           = allocated_gpu_graph_execs_atomic (support p) + of_nat (instantiations [c])"
  using assms
  by (cases rule: step_cases) (simp_all add: instantiations_simps alive_after_Destroyed)

lemma step_alive_on:
  assumes "step v c p = Some q" and "VLOG_IS_ON v 5"
  shows "alive_gpu_graph_execs_atomic (support q) + of_nat (length (destroyed_execs q))
           = alive_gpu_graph_execs_atomic (support p) + of_nat (instantiations [c])
             + of_nat (length (destroyed_execs p))"
  using assms(1)
  by (cases rule: step_cases) (simp_all add: instantiations_simps alive_after_Destroyed assms(2))

lemma step_alive_off:
  assumes "step v c p = Some q" and "\<not> VLOG_IS_ON v 5"
  shows "alive_gpu_graph_execs_atomic (support q)
           = alive_gpu_graph_execs_atomic (support p) + of_nat (instantiations [c])"
  using assms(1)
  by (cases rule: step_cases) (simp_all add: instantiations_simps assms(2))

lemma identities_simps:
  "identities (p\<lparr>objects := xs\<rparr>) = map (\<lambda>x. exec_id (fst x)) xs"
  "identities (p\<lparr>support := s\<rparr>) = identities p"
  "identities (p\<lparr>destroyed_execs := d\<rparr>) = identities p"
  by (simp_all add: identities_def)

lemma identities_update:
  "i < length (objects p) \<Longrightarrow>
   map (\<lambda>x. exec_id (fst x)) ((objects p)[i := (fst (objects p ! i), b)]) = identities p"
  by (simp add: identities_def map_update list_update_same_conv)

lemma step_identities:
  assumes "step v c p = Some q"
  shows "identities q = identities p @
           map (\<lambda>k. allocated_gpu_graph_execs_atomic (support p) + of_nat k)
             [0..<instantiations [c]]"
  using assms
  by (cases rule: step_cases)
     (simp_all add: instantiations_simps identities_simps identities_update,
      simp add: identities_def OwnedGpuGraphExec_new_def)


lemma instantiations_Cons:
  "instantiations (c # cs) = instantiations [c] + instantiations cs"
  by (simp add: instantiations_def)

lemma map_upt_add:
  "map f [0..<m + n] = map f [0..<m] @ map (\<lambda>k. f (m + k)) [0..<n]"
  by (induction n) simp_all

lemma run_Cons_Some:
  "run v (c # cs) p = Some q \<Longrightarrow> \<exists>p'. step v c p = Some p' \<and> run v cs p' = Some q"
  by (cases "step v c p") simp_all

lemma run_allocated:
  "run v cs p = Some q \<Longrightarrow>
     allocated_gpu_graph_execs_atomic (support q)
       = allocated_gpu_graph_execs_atomic (support p) + of_nat (instantiations cs)"
proof (induction cs arbitrary: p)
  case Nil
  then show ?case by (simp add: instantiations_def)
next
  case (Cons c cs)
  from run_Cons_Some [OF Cons.prems]
  obtain p' where s: "step v c p = Some p'" and r: "run v cs p' = Some q" by blast
  show ?case
    unfolding instantiations_Cons [of c cs] Cons.IH [OF r] step_allocated [OF s]
    by simp
qed

lemma run_alive_on:
  "run v cs p = Some q \<Longrightarrow> VLOG_IS_ON v 5 \<Longrightarrow>
     alive_gpu_graph_execs_atomic (support q) + of_nat (length (destroyed_execs q))
       = alive_gpu_graph_execs_atomic (support p) + of_nat (instantiations cs)
         + of_nat (length (destroyed_execs p))"
proof (induction cs arbitrary: p)
  case Nil
  then show ?case by (simp add: instantiations_def)
next
  case (Cons c cs)
  from run_Cons_Some [OF Cons.prems(1)]
  obtain p' where s: "step v c p = Some p'" and r: "run v cs p' = Some q" by blast
  show ?case
    unfolding instantiations_Cons [of c cs] Cons.IH [OF r Cons.prems(2)]
    using step_alive_on [OF s Cons.prems(2)]
    by simp
qed

lemma run_alive_off:
  "run v cs p = Some q \<Longrightarrow> \<not> VLOG_IS_ON v 5 \<Longrightarrow>
     alive_gpu_graph_execs_atomic (support q)
       = alive_gpu_graph_execs_atomic (support p) + of_nat (instantiations cs)"
proof (induction cs arbitrary: p)
  case Nil
  then show ?case by (simp add: instantiations_def)
next
  case (Cons c cs)
  from run_Cons_Some [OF Cons.prems(1)]
  obtain p' where s: "step v c p = Some p'" and r: "run v cs p' = Some q" by blast
  show ?case
    unfolding instantiations_Cons [of c cs] Cons.IH [OF r Cons.prems(2)] step_alive_off [OF s Cons.prems(2)]
    by simp
qed

lemma run_identities:
  "run v cs p = Some q \<Longrightarrow>
     identities q = identities p @
       map (\<lambda>k. allocated_gpu_graph_execs_atomic (support p) + of_nat k)
         [0..<instantiations cs]"
proof (induction cs arbitrary: p)
  case Nil
  then show ?case by (simp add: instantiations_def)
next
  case (Cons c cs)
  from run_Cons_Some [OF Cons.prems(1)]
  obtain p' where s: "step v c p = Some p'" and r: "run v cs p' = Some q" by blast
  show ?case
    unfolding instantiations_Cons [of c cs] map_upt_add Cons.IH [OF r]
      step_identities [OF s] step_allocated [OF s]
    by (simp add: add.assoc)
qed


lemma init_program_simps:
  "allocated_gpu_graph_execs_atomic (support init_program) = 0"
  "alive_gpu_graph_execs_atomic (support init_program) = 0"
  "destroyed_execs init_program = []"
  "identities init_program = []"
  by (simp_all add: init_program_def init_support_def identities_def)

lemma live_count_update:
  "i < length xs \<Longrightarrow> snd (xs ! i) \<Longrightarrow>
   Suc (length (filter snd (xs[i := (a, False)]))) = length (filter snd xs)"
proof (induction xs arbitrary: i)
  case Nil
  then show ?case by simp
next
  case (Cons x xs)
  then show ?case by (cases i) auto
qed

lemma step_live:
  assumes "step v c p = Some q" and "non_null_handle c" and "list_all (\<lambda>x. exec (fst x) \<noteq> 0) (objects p)"
  shows "list_all (\<lambda>x. exec (fst x) \<noteq> 0) (objects q) \<and>
         live_count q + length (destroyed_execs q)
           = live_count p + length (destroyed_execs p) + instantiations [c]"
  using assms(1)
proof (cases rule: step_cases)
  case (created st h)
  with assms(2,3) show ?thesis
    by (simp add: live_count_def instantiations_simps OwnedGpuGraphExec_new_def)
next
  case (failed st h)
  with assms(3) show ?thesis by (simp add: instantiations_simps)
next
  case (empty i st)
  with assms(3) have False by (auto simp: list_all_length)
  then show ?thesis ..
next
  case (released i st)
  from released(2,3) have "Suc (length (filter snd ((objects p)[i := (fst (objects p ! i), False)])))
      = length (filter snd (objects p))"
    by (rule live_count_update)
  moreover have "list_all (\<lambda>x. exec (fst x) \<noteq> 0) ((objects p)[i := (fst (objects p ! i), False)])"
    using assms(3) released(2) by (auto simp: list_all_length nth_list_update)
  ultimately show ?thesis
    using released by (simp add: live_count_def instantiations_simps)
qed

lemma run_live:
  "run v cs p = Some q \<Longrightarrow> list_all non_null_handle cs \<Longrightarrow>
   list_all (\<lambda>x. exec (fst x) \<noteq> 0) (objects p) \<Longrightarrow>
   live_count q + length (destroyed_execs q)
     = live_count p + length (destroyed_execs p) + instantiations cs"
proof (induction cs arbitrary: p)
  case Nil
  then show ?case by (simp add: instantiations_def)
next
  case (Cons c cs)
  from run_Cons_Some [OF Cons.prems(1)]
  obtain p' where s: "step v c p = Some p'" and r: "run v cs p' = Some q" by blast
  from Cons.prems(2) have c: "non_null_handle c" and cs: "list_all non_null_handle cs"
    by simp_all
  note a = step_live [OF s c Cons.prems(3)]
  from a have inv: "list_all (\<lambda>x. exec (fst x) \<noteq> 0) (objects p')" ..
  from Cons.IH [OF r cs inv] a show ?case
    unfolding instantiations_Cons [of c cs] by simp
qed

lemma init_program_live:
  "live_count init_program = 0" "objects init_program = []"
  by (simp_all add: init_program_def live_count_def)

text \<open>
  C1. Take any sequence of instantiations and destructions from the start of the
  process in which the driver hands out handles that are not null. The allocation
  counter is then the number of successful instantiations modulo 2^64; it equals
  that number, and the alive counter is at most the allocation counter, while fewer
  than 2^64 instantiations have succeeded. The alive counter is the number of
  instances instantiated and not yet destroyed only when verbose logging is on at
  level 5: the call of \<^verbatim>\<open>NotifyGraphExecDestroyed\<close> is an operand of the \<^verbatim>\<open>VLOG(5)\<close>
  statement of the destructor. At a lower verbosity, the default, the alive counter is
  never decremented and equals the allocation counter: after one instantiation and
  the destruction of that instance it is 1 and no instance is alive.
\<close>

theorem alive_counter_after_run:
  assumes "run v cs init_program = Some p" and "list_all non_null_handle cs"
  shows "allocated_gpu_graph_execs (support p) = of_nat (instantiations cs) \<and>
         alive_gpu_graph_execs (support p) =
           (if VLOG_IS_ON v 5 then of_nat (live_count p) else of_nat (instantiations cs)) \<and>
         (instantiations cs < 2 ^ 64 \<longrightarrow>
            unat (allocated_gpu_graph_execs (support p)) = instantiations cs \<and>
            alive_gpu_graph_execs (support p) \<le> allocated_gpu_graph_execs (support p))"
proof -
  have live: "live_count p + length (destroyed_execs p) = instantiations cs"
    using run_live [OF assms] by (simp add: init_program_simps init_program_live)
  have alloc: "allocated_gpu_graph_execs (support p) = of_nat (instantiations cs)"
    using run_allocated [OF assms(1)]
    by (simp add: init_program_simps allocated_gpu_graph_execs_def)
  have alive: "alive_gpu_graph_execs (support p) =
      (if VLOG_IS_ON v 5 then of_nat (live_count p) else of_nat (instantiations cs))"
  proof (cases "VLOG_IS_ON v 5")
    case True
    from run_alive_on [OF assms(1) True]
    have "alive_gpu_graph_execs_atomic (support p) + of_nat (length (destroyed_execs p))
            = of_nat (live_count p + length (destroyed_execs p))"
      by (simp add: init_program_simps live)
    then have "alive_gpu_graph_execs_atomic (support p) = of_nat (live_count p)"
      by simp
    with True show ?thesis by (simp add: alive_gpu_graph_execs_def)
  next
    case False
    with run_alive_off [OF assms(1) False] show ?thesis
      by (simp add: init_program_simps alive_gpu_graph_execs_def)
  qed
  have bound: "unat (allocated_gpu_graph_execs (support p)) = instantiations cs \<and>
      alive_gpu_graph_execs (support p) \<le> allocated_gpu_graph_execs (support p)"
    if n: "instantiations cs < 2 ^ 64"
  proof -
    have u: "unat (of_nat (instantiations cs) :: size_t) = instantiations cs"
      using n by (simp add: unat_of_nat)
    have l: "live_count p \<le> instantiations cs" using live by simp
    then have "unat (of_nat (live_count p) :: size_t) = live_count p"
      using n by (simp add: unat_of_nat)
    with l u have "(of_nat (live_count p) :: size_t) \<le> of_nat (instantiations cs)"
      by (simp add: word_le_nat_alt)
    with u show ?thesis by (simp add: alloc alive)
  qed
  from alloc alive bound show ?thesis by blast
qed

theorem alive_counter_after_run_witness:
  "run 0 [Instantiate OkStatus 1, Destroy 0 OkStatus] init_program
     = Some \<lparr>support = \<lparr>allocated_gpu_graph_execs_atomic = 1, alive_gpu_graph_execs_atomic = 1\<rparr>,
             destroyed_execs = [1],
             objects = [(OwnedGpuGraphExec_new 0 1, False)]\<rparr> \<and>
   live_count \<lparr>support = \<lparr>allocated_gpu_graph_execs_atomic = 1, alive_gpu_graph_execs_atomic = 1\<rparr>,
             destroyed_execs = [1],
             objects = [(OwnedGpuGraphExec_new 0 1, False)]\<rparr> = 0 \<and>
   alive_gpu_graph_execs \<lparr>allocated_gpu_graph_execs_atomic = 1, alive_gpu_graph_execs_atomic = 1\<rparr> = 1 \<and>
   run 5 [Instantiate OkStatus 1, Destroy 0 OkStatus] init_program
     = Some \<lparr>support = \<lparr>allocated_gpu_graph_execs_atomic = 1, alive_gpu_graph_execs_atomic = 0\<rparr>,
             destroyed_execs = [1],
             objects = [(OwnedGpuGraphExec_new 0 1, False)]\<rparr>"
proof -
  have r: "run 0 [Instantiate OkStatus 1, Destroy 0 OkStatus] init_program
     = Some \<lparr>support = \<lparr>allocated_gpu_graph_execs_atomic = 1, alive_gpu_graph_execs_atomic = 1\<rparr>,
             destroyed_execs = [1],
             objects = [(OwnedGpuGraphExec_new 0 1, False)]\<rparr>"
    by (simp add: init_program_def init_support_def InstantiateGpuGraph_success
          destroy_non_empty OwnedGpuGraphExec_new_def VLOG_IS_ON_def)
  have r5: "run 5 [Instantiate OkStatus 1, Destroy 0 OkStatus] init_program
     = Some \<lparr>support = \<lparr>allocated_gpu_graph_execs_atomic = 1, alive_gpu_graph_execs_atomic = 0\<rparr>,
             destroyed_execs = [1],
             objects = [(OwnedGpuGraphExec_new 0 1, False)]\<rparr>"
    by (simp add: init_program_def init_support_def InstantiateGpuGraph_success
          destroy_non_empty OwnedGpuGraphExec_new_def VLOG_IS_ON_def NotifyGraphExecDestroyed_def)
  have h: "list_all non_null_handle [Instantiate OkStatus 1, Destroy 0 OkStatus]"
    by simp
  from alive_counter_after_run [OF r h] r r5 show ?thesis
    by (simp add: live_count_def VLOG_IS_ON_def instantiations_def)
qed

section \<open>Sequences of instantiations: the identities\<close>

lemma of_nat_size_t_less:
  "i < j \<Longrightarrow> j < 2 ^ 64 \<Longrightarrow> (of_nat i :: size_t) < of_nat j"
  by (simp add: word_less_nat_alt unat_of_nat)

lemma sorted_identities:
  assumes "n \<le> 2 ^ 64"
  shows "sorted_wrt (<) (map (\<lambda>k. of_nat k :: size_t) [0..<n])"
proof -
  have "sorted_wrt (\<lambda>i j. (of_nat i :: size_t) < of_nat j) [0..<n]"
  proof (rule sorted_wrt_mono_rel [of "[0..<n]" "(<)"])
    fix i j
    assume "i \<in> set [0..<n]" "j \<in> set [0..<n]" "i < j"
    with assms have "i < j" "j < 2 ^ 64" by auto
    then show "(of_nat i :: size_t) < of_nat j" by (rule of_nat_size_t_less)
  next
    show "sorted_wrt (<) [0..<n]" by (rule sorted_wrt_upt)
  qed
  then show ?thesis by (simp add: sorted_wrt_map)
qed

lemma run_identities_init:
  "run v cs init_program = Some p \<Longrightarrow>
   identities p = map (\<lambda>k. of_nat k) [0..<instantiations cs]"
  using run_identities [of v cs init_program p] by (simp add: init_program_simps)

text \<open>
  C6. In a run with at most 2^64 successful instantiations, the identities are handed
  out from the allocation counter: the \<open>k\<close>-th executable instantiated has identity
  \<open>k\<close>, so each identity is greater than every one handed out before and no two
  executables, alive or destroyed, share one.
\<close>

theorem identities_increasing:
  assumes "run v cs init_program = Some p" and "instantiations cs \<le> 2 ^ 64"
  shows "identities p = map (\<lambda>k. of_nat k) [0..<instantiations cs] \<and>
         sorted_wrt (<) (identities p) \<and> distinct (identities p)"
proof -
  have i: "identities p = map (\<lambda>k. of_nat k) [0..<instantiations cs]"
    using assms(1) by (rule run_identities_init)
  have s: "sorted_wrt (<) (identities p)"
    unfolding i using assms(2) by (rule sorted_identities)
  from s have "distinct (identities p)"
    by (simp add: strict_sorted_iff)
  with i s show ?thesis by simp
qed

theorem identities_increasing_witness:
  "run 0 [Instantiate OkStatus 5, Instantiate OkStatus 5, Destroy 0 OkStatus, Instantiate OkStatus 5]
      init_program
     = Some \<lparr>support = \<lparr>allocated_gpu_graph_execs_atomic = 3, alive_gpu_graph_execs_atomic = 3\<rparr>,
             destroyed_execs = [5],
             objects = [(OwnedGpuGraphExec_new 0 5, False), (OwnedGpuGraphExec_new 1 5, True),
                        (OwnedGpuGraphExec_new 2 5, True)]\<rparr> \<and>
   identities \<lparr>support = \<lparr>allocated_gpu_graph_execs_atomic = 3, alive_gpu_graph_execs_atomic = 3\<rparr>,
             destroyed_execs = [5],
             objects = [(OwnedGpuGraphExec_new 0 5, False), (OwnedGpuGraphExec_new 1 5, True),
                        (OwnedGpuGraphExec_new 2 5, True)]\<rparr> = [0, 1, 2]"
proof -
  have r: "run 0 [Instantiate OkStatus 5, Instantiate OkStatus 5, Destroy 0 OkStatus, Instantiate OkStatus 5]
      init_program
     = Some \<lparr>support = \<lparr>allocated_gpu_graph_execs_atomic = 3, alive_gpu_graph_execs_atomic = 3\<rparr>,
             destroyed_execs = [5],
             objects = [(OwnedGpuGraphExec_new 0 5, False), (OwnedGpuGraphExec_new 1 5, True),
                        (OwnedGpuGraphExec_new 2 5, True)]\<rparr>"
    by (simp add: init_program_def init_support_def InstantiateGpuGraph_success
          destroy_non_empty OwnedGpuGraphExec_new_def VLOG_IS_ON_def)
  have n: "instantiations [Instantiate OkStatus 5, Instantiate OkStatus 5, Destroy 0 OkStatus,
      Instantiate OkStatus 5] \<le> 2 ^ 64"
    by (simp add: instantiations_def)
  from identities_increasing [OF r n] r show ?thesis
    by (simp add: identities_def OwnedGpuGraphExec_new_def)
qed

lemma run_replicate_Instantiate:
  "\<exists>q. run v (replicate n (Instantiate OkStatus h)) p = Some q"
proof (induction n arbitrary: p)
  case 0
  show ?case by simp
next
  case (Suc n)
  obtain p' where "step v (Instantiate OkStatus h) p = Some p'"
    using step_Instantiate_ok [of OkStatus v h p] by simp
  with Suc [of p'] show ?case by simp
qed

lemma instantiations_replicate:
  "instantiations (replicate n (Instantiate OkStatus h)) = n"
  by (simp add: instantiations_def)

lemma identities_wrap:
  assumes "2 ^ 64 < n"
  shows "\<not> distinct (identities_of (run v (replicate n (Instantiate OkStatus h)) init_program))"
proof -
  obtain q where q: "run v (replicate n (Instantiate OkStatus h)) init_program = Some q"
    using run_replicate_Instantiate by blast
  have i: "identities q = map (\<lambda>k. of_nat k) [0..<n]"
    using run_identities_init [OF q] by (simp only: instantiations_replicate)
  have len: "length (identities q) = n" by (simp add: i)
  have z: "0 < n" and w: "2 ^ 64 < length (identities q)"
    using assms len by simp_all
  have "identities q ! 0 = 0"
    using z by (simp add: i)
  moreover have "identities q ! (2 ^ 64) = (of_nat (2 ^ 64) :: size_t)"
    unfolding i using assms by (simp only: nth_map_upt add_0 minus_nat.diff_0)
  moreover have "(of_nat (2 ^ 64) :: size_t) = 0" by simp
  ultimately have e: "identities q ! 0 = identities q ! (2 ^ 64)" by simp
  have "\<not> distinct (identities q)"
  proof
    assume d: "distinct (identities q)"
    have "0 < length (identities q)" using z len by (simp only:)
    from nth_eq_iff_index_eq [OF d this w] e have "(0::nat) = 2 ^ 64" by simp
    then show False by simp
  qed
  then show ?thesis by (simp add: identities_of_def q)
qed

text \<open>
  The counter wraps: of 2^64 + 1 executables instantiated, none of them destroyed, the
  first and the last have identity 0.
\<close>

theorem identities_distinct_counterexample:
  "\<not> distinct (identities_of (run 0 (replicate (2 ^ 64 + 1) (Instantiate OkStatus 1)) init_program))"
  by (rule identities_wrap) simp

section \<open>Capture\<close>

text \<open>
  C10. When begin-capture has succeeded and end-capture fails, CaptureGpuGraph returns
  the status of end-capture as it is, whatever the capture body returned: a failure of
  the body is dropped and contributes nothing to the returned error.
\<close>

theorem CaptureGpuGraph_end_failure:
  assumes "StreamBeginCapture drv stream s0 = (begun, s1)" and "ok begun"
    and "capture s1 = (captured, s2)"
    and "StreamEndCapture drv stream s2 = ((ended, graph), s3)" and "\<not> ok ended"
  shows "CaptureGpuGraph drv env stream capture s0 = (Inl ended, s3)"
  using assms by (simp add: CaptureGpuGraph_def)

theorem CaptureGpuGraph_end_failure_witness:
  "CaptureGpuGraph (stub_driver OkStatus (Error UNKNOWN ''end failed'')) no_debug_env 1
       failing_body False
     = (Inl (Error UNKNOWN ''end failed''), True)"
  using CaptureGpuGraph_end_failure [of "stub_driver OkStatus (Error UNKNOWN ''end failed'')" 1 False
      OkStatus True failing_body "Error ABORTED ''boom''" True "Error UNKNOWN ''end failed''" 7 True
      no_debug_env]
  by (simp add: stub_driver_def failing_body_def)

text \<open>
  C4. When begin-capture has succeeded and the capture body then fails,
  CaptureGpuGraph calls the driver's end-capture after the body and leaves the stream
  in the state that call produced, so a later capture-state query is answered from
  that state. It returns no graph. When end-capture succeeds, the result is an
  INTERNAL error whose message is "failed to capture gpu graph: " followed by the
  body's message.
\<close>

theorem CaptureGpuGraph_body_failure:
  assumes "StreamBeginCapture drv stream s0 = (begun, s1)" and "ok begun"
    and "capture s1 = (captured, s2)" and "\<not> ok captured"
    and "StreamEndCapture drv stream s2 = ((ended, graph), s3)"
  shows "snd (CaptureGpuGraph drv env stream capture s0) = s3 \<and>
         IsStreamCapturing drv stream (snd (CaptureGpuGraph drv env stream capture s0))
           = StreamIsCapturing drv stream s3 \<and>
         isl (fst (CaptureGpuGraph drv env stream capture s0)) \<and>
         (ok ended \<longrightarrow>
            fst (CaptureGpuGraph drv env stream capture s0)
              = Inl (Error INTERNAL (''failed to capture gpu graph: '' @ message captured)) \<and>
            sublist (message captured)
              (message (projl (fst (CaptureGpuGraph drv env stream capture s0)))))"
proof -
  have r: "CaptureGpuGraph drv env stream capture s0 =
      (if \<not> ok ended then (Inl ended, s3)
       else (Inl (Internal ''failed to capture gpu graph: '' (message captured)), s3))"
    using assms by (simp add: CaptureGpuGraph_def)
  have sub: "sublist (message captured)
      (message (Internal ''failed to capture gpu graph: '' (message captured)))"
    unfolding message_Internal by (rule sublist_append_leftI)
  show ?thesis
  proof (cases "ok ended")
    case True
    then have c: "CaptureGpuGraph drv env stream capture s0 =
        (Inl (Internal ''failed to capture gpu graph: '' (message captured)), s3)"
      by (simp only: r not_True_eq_False if_False)
    have "fst (CaptureGpuGraph drv env stream capture s0)
        = Inl (Error INTERNAL (''failed to capture gpu graph: '' @ message captured))"
      unfolding c Internal_def by simp
    moreover have "sublist (message captured)
        (message (projl (fst (CaptureGpuGraph drv env stream capture s0))))"
      unfolding c fst_conv sum.sel by (rule sub)
    moreover have "snd (CaptureGpuGraph drv env stream capture s0) = s3"
      "isl (fst (CaptureGpuGraph drv env stream capture s0))"
      unfolding c by simp_all
    ultimately show ?thesis by (simp add: IsStreamCapturing_def)
  next
    case False
    then have c: "CaptureGpuGraph drv env stream capture s0 = (Inl ended, s3)"
      by (simp add: r)
    with False show ?thesis by (simp add: IsStreamCapturing_def)
  qed
qed

theorem CaptureGpuGraph_body_failure_witness:
  "CaptureGpuGraph (stub_driver OkStatus OkStatus) no_debug_env 1 failing_body False
     = (Inl (Error INTERNAL ''failed to capture gpu graph: boom''), False) \<and>
   IsStreamCapturing (stub_driver OkStatus OkStatus) 1
      (snd (CaptureGpuGraph (stub_driver OkStatus OkStatus) no_debug_env 1 failing_body False))
     = Inr False"
  using CaptureGpuGraph_body_failure [of "stub_driver OkStatus OkStatus" 1 False
      OkStatus True failing_body "Error ABORTED ''boom''" True OkStatus 7 False no_debug_env]
  by (simp add: stub_driver_def failing_body_def prod_eq_iff IsStreamCapturing_def)

text \<open>
  When end-capture fails as well, the error returned is the one of end-capture: it is
  not INTERNAL here and does not mention the body's message.
\<close>

theorem CaptureGpuGraph_body_failure_counterexample:
  "fst (failing_body True) = Error ABORTED ''boom'' \<and>
   fst (CaptureGpuGraph (stub_driver OkStatus (Error UNKNOWN ''end failed'')) no_debug_env 1
       failing_body False) = Inl (Error UNKNOWN ''end failed'') \<and>
   \<not> is_internal (Error UNKNOWN ''end failed'') \<and>
   \<not> sublist ''boom'' (message (Error UNKNOWN ''end failed''))"
  by (simp add: CaptureGpuGraph_def stub_driver_def failing_body_def sublist_Cons_right)

end
